theory Spec2Isabelle
  imports Main
begin

section \<open>Python values used by \<open>lib/video_filename_parser.py\<close>\<close>

text \<open>
  A Python \<open>str\<close> is modelled as a \<open>string\<close>, a list of characters. HOL characters
  are the code points below 256, so the model covers the file names written with
  those code points; the predicates \<open>isspace\<close> and the case mapping \<open>lower\<close>
  are Python's, restricted to that range.

  An exception is a value. A subclass counts as its base class (\<open>FileExistsError\<close>
  and \<open>PermissionError\<close> are \<open>OSError\<close>); each carries its message.
\<close>

datatype exn =
    ValueError string
  | KeyError string
  | IndexError string
  | TypeError string
  | OSError string

text \<open>The clause \<^verbatim>\<open>except (ValueError, KeyError) as e\<close> matches these exceptions only.\<close>

fun except_ValueError_KeyError :: "exn \<Rightarrow> bool" where
  "except_ValueError_KeyError (ValueError m) = True"
| "except_ValueError_KeyError (KeyError m) = True"
| "except_ValueError_KeyError (IndexError m) = False"
| "except_ValueError_KeyError (TypeError m) = False"
| "except_ValueError_KeyError (OSError m) = False"

text \<open>
  \<^verbatim>\<open>str.isspace\<close> on one character: the code points 9 to 13, 28 to 32, 133 (NEL)
  and 160 (no-break space) are the whitespace below 256. \<^verbatim>\<open>str.strip()\<close> removes the
  leading and the trailing whitespace.
\<close>

definition isspace :: "char \<Rightarrow> bool" where
  "isspace c =
     (let n = (of_char c :: nat)
      in (9 \<le> n \<and> n \<le> 13) \<or> (28 \<le> n \<and> n \<le> 32) \<or> n = 133 \<or> n = 160)"

definition str_strip :: "string \<Rightarrow> string" where
  "str_strip s = rev (dropWhile isspace (rev (dropWhile isspace s)))"

text \<open>
  \<^verbatim>\<open>str.lower()\<close>: below 256 the upper-case letters are \<open>A\<close> to \<open>Z\<close> and the
  code points 192 to 222 but 215 (the multiplication sign); each is 32 below its
  lower-case letter.
\<close>

definition lower_char :: "char \<Rightarrow> char" where
  "lower_char c =
     (let n = (of_char c :: nat)
      in if (65 \<le> n \<and> n \<le> 90) \<or> (192 \<le> n \<and> n \<le> 222 \<and> n \<noteq> 215)
         then char_of (n + 32) else c)"

definition str_lower :: "string \<Rightarrow> string" where
  "str_lower s = map lower_char s"

text \<open>\<^verbatim>\<open>s.endswith(suffix)\<close>, and \<^verbatim>\<open>s.endswith((a, b, c))\<close> with a tuple of suffixes.\<close>

definition str_endswith :: "string \<Rightarrow> string \<Rightarrow> bool" where
  "str_endswith s suffix =
     (length suffix \<le> length s \<and> drop (length s - length suffix) s = suffix)"

definition str_endswith_any :: "string \<Rightarrow> string list \<Rightarrow> bool" where
  "str_endswith_any s suffixes = list_ex (str_endswith s) suffixes"

text \<open>
  \<^verbatim>\<open>s.split(sep)\<close> for a separator of one character: every occurrence of the
  separator ends a field, so a string with \<open>n\<close> separators has \<open>n + 1\<close> fields and
  the empty string has the one field \<open>''''\<close>.
\<close>

fun str_split :: "string \<Rightarrow> char \<Rightarrow> string list" where
  "str_split [] sep = [[]]"
| "str_split (c # cs) sep =
     (if c = sep then [] # str_split cs sep
      else (c # hd (str_split cs sep)) # tl (str_split cs sep))"

text \<open>
  \<^verbatim>\<open>s.rsplit(sep, 1)\<close> for a separator of one character: the text before the last
  separator and the text after it, or \<open>s\<close> alone when it holds no separator.
\<close>

definition str_rsplit1 :: "string \<Rightarrow> char \<Rightarrow> string list" where
  "str_rsplit1 s sep =
     (if sep \<in> set s
      then [rev (tl (dropWhile (\<lambda>c. c \<noteq> sep) (rev s))),
            rev (takeWhile (\<lambda>c. c \<noteq> sep) (rev s))]
      else [s])"

text \<open>\<^verbatim>\<open>xs[0]\<close> raises \<open>IndexError\<close> on the empty list.\<close>

fun index0 :: "'a list \<Rightarrow> exn + 'a" where
  "index0 [] = Inl (IndexError ''list index out of range'')"
| "index0 (x # xs) = Inr x"

text \<open>
  \<^verbatim>\<open>a, b, c, d = xs\<close> raises \<open>ValueError\<close> unless \<open>xs\<close> holds exactly four values.
\<close>

fun unpack4 :: "'a list \<Rightarrow> exn + ('a \<times> 'a \<times> 'a \<times> 'a)" where
  "unpack4 [a, b, c, d] = Inr (a, b, c, d)"
| "unpack4 xs =
     Inl (ValueError (if length xs < 4 then ''not enough values to unpack (expected 4)''
                      else ''too many values to unpack (expected 4)''))"

text \<open>\<^verbatim>\<open>d.get(key, default)\<close> on a dictionary, a partial map.\<close>

definition dict_get :: "('k \<rightharpoonup> 'v) \<Rightarrow> 'k \<Rightarrow> 'v \<Rightarrow> 'v" where
  "dict_get d k dflt = (case d k of None \<Rightarrow> dflt | Some v \<Rightarrow> v)"

text \<open>
  \<^verbatim>\<open>os.path.join(a, *p)\<close> as \<open>posixpath\<close> defines it: a component that starts with
  the separator replaces the path built so far, a component after an empty path or
  after a path that ends with the separator is appended as it is, and any other
  component is appended after a separator.
\<close>

definition join_step :: "string \<Rightarrow> string \<Rightarrow> string" where
  "join_step path b =
     (if b \<noteq> [] \<and> hd b = CHR ''/'' then b
      else if path = [] \<or> last path = CHR ''/'' then path @ b
      else path @ ''/'' @ b)"

definition path_join :: "string \<Rightarrow> string list \<Rightarrow> string" where
  "path_join a p = foldl join_step a p"


section \<open>The lookup tables\<close>

definition EMOTION_DICT :: "string \<rightharpoonup> string" where
  "EMOTION_DICT = map_of
     [(''A'', ''Anger''),
      (''D'', ''Disgust''),
      (''F'', ''Fear''),
      (''H'', ''Happy''),
      (''Ha'', ''Happy''),
      (''N'', ''Neutral''),
      (''S'', ''Sad'')]"

definition LANGUAGE_DICT :: "string \<rightharpoonup> string" where
  "LANGUAGE_DICT = map_of
     [(''EN'', ''English''),
      (''HI'', ''Hindi'')]"

definition SPEAKER_NAME_DICT :: "string \<rightharpoonup> string" where
  "SPEAKER_NAME_DICT = map_of
     [(''A1'', ''Speaker One''),
      (''A2'', ''Speaker Two''),
      (''A3'', ''Speaker Three''),
      (''A4'', ''Speaker Four''),
      (''A5'', ''Speaker Five''),
      (''A6'', ''Speaker Six''),
      (''A7'', ''Speaker Seven''),
      (''A8'', ''Speaker Eight''),
      (''A9'', ''Speaker Nine''),
      (''A10'', ''Speaker Ten''),
      (''A11'', ''Speaker Eleven''),
      (''A12'', ''Speaker Twelve''),
      (''A13'', ''Speaker Thirteen''),
      (''A14'', ''Speaker Fourteen''),
      (''A15'', ''Speaker Fifteen''),
      (''A16'', ''Speaker Sixteen''),
      (''A17'', ''Speaker Seventeen''),
      (''A18'', ''Speaker Eighteen''),
      (''A19'', ''Speaker Nineteen''),
      (''A20'', ''Speaker Twenty''),
      (''A21'', ''Speaker Twenty One''),
      (''A22'', ''Speaker Twenty Two''),
      (''A23'', ''Speaker Twenty Three''),
      (''A24'', ''Speaker Twenty Four''),
      (''A25'', ''Speaker Twenty Five'')]"

definition SENTENCE_DICT :: "string \<rightharpoonup> string" where
  "SENTENCE_DICT = map_of
     [(''S1'', ''Can't you hear my voice?''),
      (''S2'', ''I tried to resolve this issue from my end.''),
      (''S3'', ''My electricity bill is not yet updated.''),
      (''S4'', ''How much time is needed to update my account details?''),
      (''S5'', ''I no longer want to use your services.''),
      (''S6'', ''No, I haven't received any updates.''),
      (''S7'', ''No, that's fine.''),
      (''S8'', ''Okay, but make it quick.''),
      (''S9'', ''I am busy. You can call me later.''),
      (''S10'', ''Yes, who is calling?''),
      (''S11'', ''I hope it will work fine now''),
      (''S12'', ''Okay, what do I have to do?''),
      (''S13'', ''Fine, send your executive at 10:00 a.m. tomorrow.''),
      (''S14'', ''I got the wrong electricity bill.''),
      (''S15'', ''Okay, I have all these things ready.''),
      (''S16'', ''I have been waiting long to connect.''),
      (''S17'', ''Can you fix it fast?''),
      (''S18'', ''Well, can you help me?'')]"

text \<open>
  \<open>Gender\<close> maps a label to the list of its speakers. \<^verbatim>\<open>Gender.items()\<close> yields the
  entries in the order the dictionary was written, so the table is the list of its
  items.
\<close>

definition Gender :: "(string \<times> string list) list" where
  "Gender =
     [(''M'',
       [''A1'', ''A2'', ''A5'', ''A8'', ''A9'', ''A11'', ''A12'', ''A14'', ''A15'', ''A16'',
        ''A20'', ''A22'', ''A23'']),
      (''F'',
       [''A3'', ''A4'', ''A6'', ''A7'', ''A10'', ''A13'', ''A17'', ''A18'', ''A19'', ''A21'',
        ''A24'', ''A25''])]"


section \<open>\<open>parse_video_filename\<close> and \<open>get_gender\<close>\<close>

text \<open>The dictionary \<open>parse_video_filename\<close> returns, one field for each of its keys.\<close>

record details =
  speaker :: string
  speaker_name :: string
  gender :: string
  language :: string
  language_full :: string
  emotion :: string
  emotion_full :: string
  detail :: string
  sentence :: string

text \<open>What the logger receives: the level and the arguments of the message.\<close>

datatype log_record =
    LogWarning string
  | LogInfo string string
  | LogError string exn

text \<open>
  Line 108: \<^verbatim>\<open>base = filename.rsplit(".", 1)[0] if "." in filename else filename\<close>.
\<close>

definition base_of :: "string \<Rightarrow> exn + string" where
  "base_of filename =
     (if CHR ''.'' \<in> set filename then index0 (str_rsplit1 filename CHR ''.'')
      else Inr filename)"

text \<open>
  Lines 135 to 139: the scan of \<^verbatim>\<open>Gender.items()\<close> that stops at the first group
  holding the speaker; the third argument is the value of \<open>gender\<close> before the loop.
\<close>

fun gender_scan :: "(string \<times> string list) list \<Rightarrow> string \<Rightarrow> string \<Rightarrow> string" where
  "gender_scan [] spk current = current"
| "gender_scan ((g, speakers) # items) spk current =
     (if spk \<in> set speakers then g else gender_scan items spk current)"

text \<open>The record returned when the name does not have four parts (lines 116 to 126).\<close>

definition unknown_details :: details where
  "unknown_details =
     \<lparr>speaker = ''unknown'',
      speaker_name = ''Unknown Speaker'',
      gender = ''Unknown'',
      language = ''unknown'',
      language_full = ''Unknown Language'',
      emotion = ''unknown'',
      emotion_full = ''Unknown Emotion'',
      detail = ''unknown'',
      sentence = ''Unknown sentence''\<rparr>"

text \<open>
  \<open>parse_video_filename\<close> returns the records it logged and either the exception
  it raised or the dictionary it returned.
\<close>

definition parse_video_filename :: "string \<Rightarrow> log_record list \<times> (exn + details)" where
  "parse_video_filename filename =
     (case base_of filename of
        Inl e \<Rightarrow> ([], Inl e)
      | Inr base \<Rightarrow>
          (let parts = str_split base CHR ''_''
           in if length parts \<noteq> 4 then ([LogWarning filename], Inr unknown_details)
              else
                (case unpack4 (map str_strip parts) of
                   Inl e \<Rightarrow> ([], Inl e)
                 | Inr (spk, lang, emotion_code, det) \<Rightarrow>
                     ([], Inr
                        \<lparr>speaker = spk,
                         speaker_name = dict_get SPEAKER_NAME_DICT spk spk,
                         gender = gender_scan Gender spk ''Unknown'',
                         language = lang,
                         language_full = dict_get LANGUAGE_DICT lang lang,
                         emotion = emotion_code,
                         emotion_full = dict_get EMOTION_DICT emotion_code emotion_code,
                         detail = det,
                         sentence = dict_get SENTENCE_DICT det det\<rparr>))))"

text \<open>
  \<open>get_gender\<close> (lines 154 to 161): the same scan, returning from inside the loop and
  raising \<open>ValueError\<close> after it.
\<close>

fun get_gender_scan :: "(string \<times> string list) list \<Rightarrow> string \<Rightarrow> exn + string" where
  "get_gender_scan [] spk = Inl (ValueError (''Unknown gender for speaker: '' @ spk))"
| "get_gender_scan ((g, speakers) # items) spk =
     (if spk \<in> set speakers then Inr g else get_gender_scan items spk)"

definition get_gender :: "string \<Rightarrow> exn + string" where
  "get_gender spk = get_gender_scan Gender spk"


section \<open>\<open>convert_structure\<close>\<close>

text \<open>
  The file system is a state of any type \<open>'fs\<close>, and the library calls that read or
  change it are parameters: \<^verbatim>\<open>os.walk(src_dir)\<close> gives the list of the pairs
  \<open>(root, files)\<close> the loop iterates over (the directory names it also yields are
  ignored by the source), \<^verbatim>\<open>os.makedirs(path, exist_ok=True)\<close> and
  \<^verbatim>\<open>shutil.copy2(src, dst)\<close> return the exception they raise, if any, and the file
  system they leave.
\<close>

record 'fs os_ops =
  os_walk :: "'fs \<Rightarrow> string \<Rightarrow> (string \<times> string list) list"
  os_makedirs :: "'fs \<Rightarrow> string \<Rightarrow> exn option \<times> 'fs"
  shutil_copy2 :: "'fs \<Rightarrow> string \<Rightarrow> string \<Rightarrow> exn option \<times> 'fs"

text \<open>The state outside the function: the file system and what the logger received.\<close>

record 'fs world =
  fs :: 'fs
  logger :: "log_record list"

text \<open>Line 173: \<^verbatim>\<open>file.lower().endswith((".mp4", ".avi", ".mov"))\<close>.\<close>

definition is_video :: "string \<Rightarrow> bool" where
  "is_video file = str_endswith_any (str_lower file) [''.mp4'', ''.avi'', ''.mov'']"

text \<open>Lines 185 and 188: the directory and the path the file is copied to.\<close>

definition target_dir_of :: "string \<Rightarrow> details \<Rightarrow> string" where
  "target_dir_of dst_dir d = path_join dst_dir [language d, gender d, emotion d, detail d]"

definition target_file_of :: "string \<Rightarrow> details \<Rightarrow> string \<Rightarrow> string" where
  "target_file_of dst_dir d file = path_join (target_dir_of dst_dir d) [file]"

text \<open>
  The body of the \<^verbatim>\<open>try\<close> statement (lines 178 to 192) for one file: the exception
  that leaves it, if any, and the state it leaves. The increment of
  \<open>success_count\<close>, its last statement, is done by the loop below when no exception
  leaves the body.
\<close>

definition try_body ::
  "'fs os_ops \<Rightarrow> string \<Rightarrow> string \<Rightarrow> string \<Rightarrow> 'fs world \<Rightarrow> exn option \<times> 'fs world" where
  "try_body os dst_dir root file w =
     (let src_file = path_join root [file];
          (records, r) = parse_video_filename file;
          w1 = w\<lparr>logger := logger w @ records\<rparr>
      in case r of
           Inl e \<Rightarrow> (Some e, w1)
         | Inr d \<Rightarrow>
             (case os_makedirs os (fs w1) (target_dir_of dst_dir d) of
                (Some e, fs2) \<Rightarrow> (Some e, w1\<lparr>fs := fs2\<rparr>)
              | (None, fs2) \<Rightarrow>
                  (case shutil_copy2 os fs2 src_file (target_file_of dst_dir d file) of
                     (Some e, fs3) \<Rightarrow> (Some e, w1\<lparr>fs := fs3\<rparr>)
                   | (None, fs3) \<Rightarrow>
                       (None,
                        w1\<lparr>fs := fs3,
                           logger := logger w1 @
                             [LogInfo src_file (target_file_of dst_dir d file)]\<rparr>))))"

text \<open>
  The inner loop (lines 172 to 196) over the files of one directory. The counters are
  the pair \<open>(success_count, error_count)\<close>; the result is the exception that leaves
  the loop or the counters after it.
\<close>

fun files_loop ::
  "'fs os_ops \<Rightarrow> string \<Rightarrow> string \<Rightarrow> string list \<Rightarrow> int \<times> int \<Rightarrow> 'fs world \<Rightarrow>
     (exn + int \<times> int) \<times> 'fs world" where
  "files_loop os dst_dir root [] counts w = (Inr counts, w)"
| "files_loop os dst_dir root (file # files) (success_count, error_count) w =
     (if \<not> is_video file
      then files_loop os dst_dir root files (success_count, error_count) w
      else
        (case try_body os dst_dir root file w of
           (None, w') \<Rightarrow>
             files_loop os dst_dir root files (success_count + 1, error_count) w'
         | (Some e, w') \<Rightarrow>
             if except_ValueError_KeyError e
             then files_loop os dst_dir root files (success_count, error_count + 1)
                    (w'\<lparr>logger := logger w' @ [LogError file e]\<rparr>)
             else (Inl e, w')))"

text \<open>The outer loop (line 171) over what \<^verbatim>\<open>os.walk\<close> yields.\<close>

fun walk_loop ::
  "'fs os_ops \<Rightarrow> string \<Rightarrow> (string \<times> string list) list \<Rightarrow> int \<times> int \<Rightarrow> 'fs world \<Rightarrow>
     (exn + int \<times> int) \<times> 'fs world" where
  "walk_loop os dst_dir [] counts w = (Inr counts, w)"
| "walk_loop os dst_dir ((root, files) # dirs) counts w =
     (case files_loop os dst_dir root files counts w of
        (Inl e, w') \<Rightarrow> (Inl e, w')
      | (Inr counts', w') \<Rightarrow> walk_loop os dst_dir dirs counts' w')"

definition convert_structure ::
  "'fs os_ops \<Rightarrow> string \<Rightarrow> string \<Rightarrow> 'fs world \<Rightarrow> (exn + int \<times> int) \<times> 'fs world" where
  "convert_structure os src_dir dst_dir w =
     walk_loop os dst_dir (os_walk os (fs w) src_dir) (0, 0) w"


section \<open>The words of the claims, and a file system for the examples\<close>

text \<open>
  ``Ends, case-insensitively, with'': two characters are the same letter when they
  are equal or are the two cases of one ASCII letter, and a name ends with an
  extension when its last characters are, one by one, the same letters as the
  extension's. This definition follows the specification's words; \<open>is_video\<close> above
  is the source's test.
\<close>

definition ascii_letter :: "char \<Rightarrow> bool" where
  "ascii_letter c =
     (let n = (of_char c :: nat) in (65 \<le> n \<and> n \<le> 90) \<or> (97 \<le> n \<and> n \<le> 122))"

definition same_letter :: "char \<Rightarrow> char \<Rightarrow> bool" where
  "same_letter a b =
     (a = b \<or>
      (ascii_letter a \<and> ascii_letter b \<and>
       ((of_char a :: nat) + 32 = of_char b \<or> (of_char b :: nat) + 32 = of_char a)))"

definition ends_with_ignoring_case :: "string \<Rightarrow> string \<Rightarrow> bool" where
  "ends_with_ignoring_case s ext =
     (length ext \<le> length s \<and> list_all2 same_letter (drop (length s - length ext) s) ext)"

text \<open>
  A file system for the examples: its state is the list of the calls made so far,
  \<^verbatim>\<open>os.walk\<close> yields a fixed tree, and \<^verbatim>\<open>os.makedirs\<close> and \<^verbatim>\<open>shutil.copy2\<close> raise
  the exception they are given, if any.
\<close>

datatype fs_call = Makedirs string | Copy2 string string

definition stub_os ::
  "(string \<times> string list) list \<Rightarrow> exn option \<Rightarrow> exn option \<Rightarrow> fs_call list os_ops" where
  "stub_os tree makedirs_raises copy2_raises =
     \<lparr>os_walk = (\<lambda>calls src_dir. tree),
      os_makedirs = (\<lambda>calls path. (makedirs_raises, calls @ [Makedirs path])),
      shutil_copy2 = (\<lambda>calls src dst. (copy2_raises, calls @ [Copy2 src dst]))\<rparr>"


section \<open>Splitting a file name\<close>

lemma str_split_not_Nil: "str_split s sep \<noteq> []"
  by (induction s) auto

lemma str_split_no_sep: "sep \<notin> set a \<Longrightarrow> str_split a sep = [a]"
  by (induction a) auto

lemma str_split_append: "sep \<notin> set a \<Longrightarrow> str_split (a @ sep # rest) sep = a # str_split rest sep"
  by (induction a) auto

lemma length_str_split: "length (str_split s sep) = Suc (count_list s sep)"
  by (induction s) (auto simp: str_split_not_Nil)

lemma str_rsplit1_last_dot:
  "sep \<notin> set ext \<Longrightarrow> str_rsplit1 (a @ sep # ext) sep = [a, ext]"
proof -
  assume a: "sep \<notin> set ext"
  then have d: "dropWhile (\<lambda>c. c \<noteq> sep) (rev ext) = []"
    by (simp add: dropWhile_eq_Nil_conv) blast
  from a have t: "takeWhile (\<lambda>c. c \<noteq> sep) (rev ext) = rev ext"
    by (simp add: takeWhile_eq_all_conv) blast
  show ?thesis
    by (simp add: str_rsplit1_def dropWhile_append3 takeWhile_tail d t)
qed

lemma base_of_total:
  "base_of filename =
     Inr (if CHR ''.'' \<in> set filename
          then rev (tl (dropWhile (\<lambda>c. c \<noteq> CHR ''.'') (rev filename))) else filename)"
  by (simp add: base_of_def str_rsplit1_def)

lemma base_of_extension: "CHR ''.'' \<notin> set ext \<Longrightarrow> base_of (a @ ''.'' @ ext) = Inr a"
  using str_rsplit1_last_dot [of "CHR ''.''" ext a] by (simp add: base_of_def)

lemma base_of_no_dot: "CHR ''.'' \<notin> set filename \<Longrightarrow> base_of filename = Inr filename"
  by (simp add: base_of_def)

lemma parse_four_parts:
  assumes "base_of filename = Inr base" and "str_split base CHR ''_'' = [p1, p2, p3, p4]"
  shows "parse_video_filename filename =
     ([], Inr
        \<lparr>speaker = str_strip p1,
         speaker_name = dict_get SPEAKER_NAME_DICT (str_strip p1) (str_strip p1),
         gender = gender_scan Gender (str_strip p1) ''Unknown'',
         language = str_strip p2,
         language_full = dict_get LANGUAGE_DICT (str_strip p2) (str_strip p2),
         emotion = str_strip p3,
         emotion_full = dict_get EMOTION_DICT (str_strip p3) (str_strip p3),
         detail = str_strip p4,
         sentence = dict_get SENTENCE_DICT (str_strip p4) (str_strip p4)\<rparr>)"
  using assms by (simp add: parse_video_filename_def)

lemma parse_other_parts:
  assumes "base_of filename = Inr base" and "length (str_split base CHR ''_'') \<noteq> 4"
  shows "parse_video_filename filename = ([LogWarning filename], Inr unknown_details)"
  using assms by (simp add: parse_video_filename_def)

lemma length4E:
  assumes "length xs = 4"
  obtains a b c d where "xs = [a, b, c, d]"
  using assms by (auto simp: numeral_eq_Suc length_Suc_conv)

lemma SPEAKER_keys:
  "SPEAKER_NAME_DICT k = Some v \<Longrightarrow> CHR ''_'' \<notin> set k \<and> CHR ''.'' \<notin> set k \<and> str_strip k = k"
  by (auto simp: SPEAKER_NAME_DICT_def str_strip_def isspace_def split: if_splits)

lemma LANGUAGE_keys:
  "LANGUAGE_DICT k = Some v \<Longrightarrow> CHR ''_'' \<notin> set k \<and> CHR ''.'' \<notin> set k \<and> str_strip k = k"
  by (auto simp: LANGUAGE_DICT_def str_strip_def isspace_def split: if_splits)

lemma EMOTION_keys:
  "EMOTION_DICT k = Some v \<Longrightarrow> CHR ''_'' \<notin> set k \<and> CHR ''.'' \<notin> set k \<and> str_strip k = k"
  by (auto simp: EMOTION_DICT_def str_strip_def isspace_def split: if_splits)

lemma SENTENCE_keys:
  "SENTENCE_DICT k = Some v \<Longrightarrow> CHR ''_'' \<notin> set k \<and> CHR ''.'' \<notin> set k \<and> str_strip k = k"
  by (auto simp: SENTENCE_DICT_def str_strip_def isspace_def split: if_splits)


section \<open>The gender table\<close>

lemma Gender_items: "Gender = [(''M'', snd (Gender ! 0)), (''F'', snd (Gender ! 1))]"
  by (simp add: Gender_def)

lemma Gender_lists_disjoint: "set (snd (Gender ! 0)) \<inter> set (snd (Gender ! 1)) = {}"
  by (simp add: Gender_def)

lemma Gender_cases:
  obtains males females where "Gender = [(''M'', males), (''F'', females)]"
    and "set males \<inter> set females = {}"
  using Gender_items Gender_lists_disjoint by blast

text \<open>
  Claim C9. Every speaker code appears in at most one gender group: \<open>Gender\<close> has the
  two groups \<open>M\<close> and \<open>F\<close>, their lists of speakers are disjoint, and so both scans
  (the one of \<open>parse_video_filename\<close> and the one of \<open>get_gender\<close>) find the same
  group when the groups are visited in the other order.
\<close>

theorem gender_groups_disjoint:
  "(\<exists>males females. Gender = [(''M'', males), (''F'', females)] \<and> set males \<inter> set females = {}) \<and>
   (\<forall>spk current. gender_scan (rev Gender) spk current = gender_scan Gender spk current) \<and>
   (\<forall>spk. get_gender_scan (rev Gender) spk = get_gender_scan Gender spk)"
proof -
  obtain males females where G: "Gender = [(''M'', males), (''F'', females)]"
    and disj: "set males \<inter> set females = {}"
    by (rule Gender_cases)
  have "gender_scan (rev Gender) spk current = gender_scan Gender spk current" for spk current
    using disj by (auto simp: G)
  moreover have "get_gender_scan (rev Gender) spk = get_gender_scan Gender spk" for spk
    using disj by (auto simp: G)
  ultimately show ?thesis using G disj by blast
qed

text \<open>The two orders at \<open>A3\<close>, a speaker of the second group, and at \<open>A1\<close>.\<close>

theorem gender_groups_disjoint_witness:
  "gender_scan (rev Gender) ''A3'' ''Unknown'' = ''F'' \<and> gender_scan Gender ''A3'' ''Unknown'' = ''F'' \<and>
   get_gender_scan (rev Gender) ''A1'' = Inr ''M'' \<and> get_gender_scan Gender ''A1'' = Inr ''M''"
proof -
  have "gender_scan Gender ''A3'' ''Unknown'' = ''F''" "get_gender_scan Gender ''A1'' = Inr ''M''"
    by (simp_all add: Gender_def)
  with gender_groups_disjoint show ?thesis by simp
qed

text \<open>
  Claim C4. \<open>get_gender\<close> returns the label of the group that lists the speaker code,
  and raises \<open>ValueError\<close> (``Unknown gender for speaker'') for a code that no group
  lists; it has no fallback value.
\<close>

theorem get_gender_strict:
  "((g, speakers) \<in> set Gender \<and> spk \<in> set speakers \<longrightarrow> get_gender spk = Inr g) \<and>
   ((\<forall>(g, speakers) \<in> set Gender. spk \<notin> set speakers) \<longrightarrow>
      get_gender spk = Inl (ValueError (''Unknown gender for speaker: '' @ spk)))"
proof -
  obtain males females where G: "Gender = [(''M'', males), (''F'', females)]"
    and disj: "set males \<inter> set females = {}"
    by (rule Gender_cases)
  show ?thesis
    using disj by (auto simp: get_gender_def G)
qed

text \<open>\<open>A3\<close> is listed under \<open>F\<close>; \<open>Z1\<close> is listed nowhere.\<close>

theorem get_gender_strict_witness:
  "(''F'', [''A3'', ''A4'', ''A6'', ''A7'', ''A10'', ''A13'', ''A17'', ''A18'', ''A19'', ''A21'',
        ''A24'', ''A25'']) \<in> set Gender \<and> get_gender ''A3'' = Inr ''F'' \<and>
   \<not> (\<exists>(g, speakers) \<in> set Gender. ''Z1'' \<in> set speakers) \<and>
   get_gender ''Z1'' = Inl (ValueError ''Unknown gender for speaker: Z1'')"
proof -
  let ?females = "[''A3'', ''A4'', ''A6'', ''A7'', ''A10'', ''A13'', ''A17'', ''A18'', ''A19'',
    ''A21'', ''A24'', ''A25'']"
  have a: "(''F'', ?females) \<in> set Gender \<and> ''A3'' \<in> set ?females"
    by (simp add: Gender_def)
  have b: "\<forall>(g, speakers) \<in> set Gender. ''Z1'' \<notin> set speakers"
    by (simp add: Gender_def)
  from a get_gender_strict [of "''F''" ?females "''A3''"]
  have c: "get_gender ''A3'' = Inr ''F''" by blast
  from b get_gender_strict [of "''F''" ?females "''Z1''"]
  have d: "get_gender ''Z1'' = Inl (ValueError ''Unknown gender for speaker: Z1'')" by simp
  from a b c d show ?thesis by auto
qed


section \<open>Decoding a file name\<close>

text \<open>
  Claim C2. \<open>parse_video_filename\<close> raises on no file name: the base name is always
  defined and a dictionary is always returned. When the base name does not split at
  \<open>_\<close> into exactly four fields, the dictionary is the fallback record (\<open>unknown\<close> in
  the four code fields, \<open>Unknown\<close> as gender, and the four \<open>Unknown ...\<close> display
  values), and one warning naming the file is logged.
\<close>

theorem parse_video_filename_fallback:
  "(\<exists>base. base_of filename = Inr base) \<and>
   (\<exists>records d. parse_video_filename filename = (records, Inr d)) \<and>
   (\<forall>base. base_of filename = Inr base \<and> length (str_split base CHR ''_'') \<noteq> 4 \<longrightarrow>
      parse_video_filename filename =
        ([LogWarning filename],
         Inr \<lparr>speaker = ''unknown'', speaker_name = ''Unknown Speaker'', gender = ''Unknown'',
              language = ''unknown'', language_full = ''Unknown Language'',
              emotion = ''unknown'', emotion_full = ''Unknown Emotion'',
              detail = ''unknown'', sentence = ''Unknown sentence''\<rparr>))"
proof -
  obtain base where b: "base_of filename = Inr base"
    using base_of_total by blast
  have "\<exists>records d. parse_video_filename filename = (records, Inr d)"
  proof (cases "length (str_split base CHR ''_'') = 4")
    case True
    then obtain p1 p2 p3 p4 where "str_split base CHR ''_'' = [p1, p2, p3, p4]"
      by (rule length4E)
    from parse_four_parts [OF b this] show ?thesis by blast
  next
    case False
    from parse_other_parts [OF b this] show ?thesis by blast
  qed
  moreover have "parse_video_filename filename =
        ([LogWarning filename],
         Inr \<lparr>speaker = ''unknown'', speaker_name = ''Unknown Speaker'', gender = ''Unknown'',
              language = ''unknown'', language_full = ''Unknown Language'',
              emotion = ''unknown'', emotion_full = ''Unknown Emotion'',
              detail = ''unknown'', sentence = ''Unknown sentence''\<rparr>)"
    if "base_of filename = Inr base'" "length (str_split base' CHR ''_'') \<noteq> 4" for base'
    using parse_other_parts [OF that] by (simp add: unknown_details_def)
  ultimately show ?thesis using b by blast
qed

text \<open>The two malformed names of the specification: two fields, and five fields.\<close>

theorem parse_video_filename_fallback_witness:
  "base_of ''A1_EN.mp4'' = Inr ''A1_EN'' \<and> length (str_split ''A1_EN'' CHR ''_'') \<noteq> 4 \<and>
   parse_video_filename ''A1_EN.mp4'' =
     ([LogWarning ''A1_EN.mp4''],
      Inr \<lparr>speaker = ''unknown'', speaker_name = ''Unknown Speaker'', gender = ''Unknown'',
           language = ''unknown'', language_full = ''Unknown Language'',
           emotion = ''unknown'', emotion_full = ''Unknown Emotion'',
           detail = ''unknown'', sentence = ''Unknown sentence''\<rparr>) \<and>
   base_of ''A1_EN_H_S1_extra.mp4'' = Inr ''A1_EN_H_S1_extra'' \<and>
   length (str_split ''A1_EN_H_S1_extra'' CHR ''_'') \<noteq> 4 \<and>
   parse_video_filename ''A1_EN_H_S1_extra.mp4'' =
     ([LogWarning ''A1_EN_H_S1_extra.mp4''],
      Inr \<lparr>speaker = ''unknown'', speaker_name = ''Unknown Speaker'', gender = ''Unknown'',
           language = ''unknown'', language_full = ''Unknown Language'',
           emotion = ''unknown'', emotion_full = ''Unknown Emotion'',
           detail = ''unknown'', sentence = ''Unknown sentence''\<rparr>)"
proof -
  have b1: "base_of ''A1_EN.mp4'' = Inr ''A1_EN''"
    by (simp add: base_of_def str_rsplit1_def)
  have l1: "length (str_split ''A1_EN'' CHR ''_'') \<noteq> 4" by simp
  have b2: "base_of ''A1_EN_H_S1_extra.mp4'' = Inr ''A1_EN_H_S1_extra''"
    by (simp add: base_of_def str_rsplit1_def)
  have l2: "length (str_split ''A1_EN_H_S1_extra'' CHR ''_'') \<noteq> 4" by simp
  from b1 l1 b2 l2
    parse_video_filename_fallback [of "''A1_EN.mp4''"]
    parse_video_filename_fallback [of "''A1_EN_H_S1_extra.mp4''"]
  show ?thesis by blast
qed

text \<open>What a name with four fields decodes to, field by field.\<close>

lemma parse_four_fields:
  assumes "base_of filename = Inr base" and "length (str_split base CHR ''_'') = 4"
  obtains d where "parse_video_filename filename = ([], Inr d)"
    and "[speaker d, language d, emotion d, detail d] = map str_strip (str_split base CHR ''_'')"
    and "speaker_name d = dict_get SPEAKER_NAME_DICT (speaker d) (speaker d)"
    and "language_full d = dict_get LANGUAGE_DICT (language d) (language d)"
    and "emotion_full d = dict_get EMOTION_DICT (emotion d) (emotion d)"
    and "sentence d = dict_get SENTENCE_DICT (detail d) (detail d)"
    and "gender d = gender_scan Gender (speaker d) ''Unknown''"
proof -
  from assms(2) obtain p1 p2 p3 p4 where p: "str_split base CHR ''_'' = [p1, p2, p3, p4]"
    by (rule length4E)
  let ?d = "\<lparr>speaker = str_strip p1,
         speaker_name = dict_get SPEAKER_NAME_DICT (str_strip p1) (str_strip p1),
         gender = gender_scan Gender (str_strip p1) ''Unknown'',
         language = str_strip p2,
         language_full = dict_get LANGUAGE_DICT (str_strip p2) (str_strip p2),
         emotion = str_strip p3,
         emotion_full = dict_get EMOTION_DICT (str_strip p3) (str_strip p3),
         detail = str_strip p4,
         sentence = dict_get SENTENCE_DICT (str_strip p4) (str_strip p4)\<rparr>"
  show thesis
    by (rule that [of ?d]) (simp_all add: parse_four_parts [OF assms(1) p] p)
qed

text \<open>
  Claim C3. For a file name \<open>S_L_E_D.ext\<close> whose four codes are keys of the speaker,
  language, emotion and sentence tables (\<open>ext\<close> being the text after the last dot,
  so it holds no dot), the base name is \<open>S_L_E_D\<close>, and the dictionary returned has
  the raw codes \<open>S\<close>, \<open>L\<close>, \<open>E\<close>, \<open>D\<close> (trimming leaves a key as it is) and, as
  display values, what the tables map the codes to. Nothing is logged. Without
  the extension the name is its own base and decodes to the same dictionary.
\<close>

theorem parse_video_filename_recognized:
  assumes "SPEAKER_NAME_DICT S = Some speaker_name'"
    and "LANGUAGE_DICT L = Some language_full'"
    and "EMOTION_DICT E = Some emotion_full'"
    and "SENTENCE_DICT D = Some sentence'"
    and "CHR ''.'' \<notin> set ext"
  shows "base_of (S @ ''_'' @ L @ ''_'' @ E @ ''_'' @ D @ ''.'' @ ext) =
           Inr (S @ ''_'' @ L @ ''_'' @ E @ ''_'' @ D) \<and>
         parse_video_filename (S @ ''_'' @ L @ ''_'' @ E @ ''_'' @ D @ ''.'' @ ext) =
           ([], Inr
              \<lparr>speaker = S, speaker_name = speaker_name',
               gender = gender_scan Gender S ''Unknown'',
               language = L, language_full = language_full',
               emotion = E, emotion_full = emotion_full',
               detail = D, sentence = sentence'\<rparr>) \<and>
         base_of (S @ ''_'' @ L @ ''_'' @ E @ ''_'' @ D) =
           Inr (S @ ''_'' @ L @ ''_'' @ E @ ''_'' @ D) \<and>
         parse_video_filename (S @ ''_'' @ L @ ''_'' @ E @ ''_'' @ D) =
           parse_video_filename (S @ ''_'' @ L @ ''_'' @ E @ ''_'' @ D @ ''.'' @ ext)"
proof -
  let ?base = "S @ ''_'' @ L @ ''_'' @ E @ ''_'' @ D"
  note keys = SPEAKER_keys [OF assms(1)] LANGUAGE_keys [OF assms(2)] EMOTION_keys [OF assms(3)]
    SENTENCE_keys [OF assms(4)]
  have b: "base_of (?base @ ''.'' @ ext) = Inr ?base"
    using assms(5) by (rule base_of_extension)
  have b': "base_of ?base = Inr ?base"
    using keys by (intro base_of_no_dot) simp
  have parts: "str_split ?base CHR ''_'' = [S, L, E, D]"
    using keys by (simp add: str_split_append str_split_no_sep)
  have "parse_video_filename (?base @ ''.'' @ ext) =
           ([], Inr
              \<lparr>speaker = S, speaker_name = speaker_name',
               gender = gender_scan Gender S ''Unknown'',
               language = L, language_full = language_full',
               emotion = E, emotion_full = emotion_full',
               detail = D, sentence = sentence'\<rparr>)"
    using parse_four_parts [OF b parts] keys assms(1-4) by (simp add: dict_get_def)
  moreover have "parse_video_filename ?base = parse_video_filename (?base @ ''.'' @ ext)"
    using parse_four_parts [OF b parts] parse_four_parts [OF b' parts] by simp
  ultimately show ?thesis
    using b b' by (simp only: append_assoc simp_thms)
qed

text \<open>The name \<open>A3_HI_Ha_S17.mp4\<close>.\<close>

theorem parse_video_filename_recognized_witness:
  "SPEAKER_NAME_DICT ''A3'' = Some ''Speaker Three'' \<and> LANGUAGE_DICT ''HI'' = Some ''Hindi'' \<and>
   EMOTION_DICT ''Ha'' = Some ''Happy'' \<and> SENTENCE_DICT ''S17'' = Some ''Can you fix it fast?'' \<and>
   CHR ''.'' \<notin> set ''mp4'' \<and>
   parse_video_filename ''A3_HI_Ha_S17.mp4'' =
     ([], Inr
        \<lparr>speaker = ''A3'', speaker_name = ''Speaker Three'', gender = ''F'',
         language = ''HI'', language_full = ''Hindi'',
         emotion = ''Ha'', emotion_full = ''Happy'',
         detail = ''S17'', sentence = ''Can you fix it fast?''\<rparr>)"
proof -
  have h: "SPEAKER_NAME_DICT ''A3'' = Some ''Speaker Three''" "LANGUAGE_DICT ''HI'' = Some ''Hindi''"
    "EMOTION_DICT ''Ha'' = Some ''Happy''" "SENTENCE_DICT ''S17'' = Some ''Can you fix it fast?''"
    "CHR ''.'' \<notin> set ''mp4''"
    by (simp_all add: SPEAKER_NAME_DICT_def LANGUAGE_DICT_def EMOTION_DICT_def SENTENCE_DICT_def)
  have g: "gender_scan Gender ''A3'' ''Unknown'' = ''F''"
    by (simp add: Gender_def)
  from parse_video_filename_recognized [OF h] g h show ?thesis by simp
qed

text \<open>
  Claim C5. For a file name whose base has four fields, decoding succeeds, the
  speaker code is the trimmed first field, and the gender is found by membership:
  it is the label of the group that lists the speaker code, and the string
  \<open>Unknown\<close> when no group lists it.
\<close>

theorem parse_video_filename_gender:
  assumes "base_of filename = Inr base" and "length (str_split base CHR ''_'') = 4"
  shows "\<exists>d. parse_video_filename filename = ([], Inr d) \<and>
           speaker d = str_strip (hd (str_split base CHR ''_'')) \<and>
           (\<forall>g speakers. (g, speakers) \<in> set Gender \<and> speaker d \<in> set speakers \<longrightarrow> gender d = g) \<and>
           ((\<forall>(g, speakers) \<in> set Gender. speaker d \<notin> set speakers) \<longrightarrow> gender d = ''Unknown'')"
proof -
  obtain d where d: "parse_video_filename filename = ([], Inr d)"
    and f: "[speaker d, language d, emotion d, detail d] = map str_strip (str_split base CHR ''_'')"
    and g: "gender d = gender_scan Gender (speaker d) ''Unknown''"
    using assms by (rule parse_four_fields)
  obtain males females where G: "Gender = [(''M'', males), (''F'', females)]"
    and disj: "set males \<inter> set females = {}"
    by (rule Gender_cases)
  from f have "speaker d = str_strip (hd (str_split base CHR ''_''))"
    by (cases "str_split base CHR ''_''") auto
  moreover have "gender d = g'" if "(g', speakers) \<in> set Gender" "speaker d \<in> set speakers"
    for g' speakers
    using that disj by (auto simp: g G)
  moreover have "gender d = ''Unknown''" if "\<forall>(g, speakers) \<in> set Gender. speaker d \<notin> set speakers"
    using that by (simp add: g G)
  ultimately show ?thesis using d by blast
qed

text \<open>\<open>A7\<close> is listed under \<open>F\<close>; \<open>Z99\<close> is listed nowhere and decodes all the same.\<close>

theorem parse_video_filename_gender_witness:
  "base_of ''A7_EN_S_S4.avi'' = Inr ''A7_EN_S_S4'' \<and> length (str_split ''A7_EN_S_S4'' CHR ''_'') = 4 \<and>
   (\<exists>speakers. (''F'', speakers) \<in> set Gender \<and> ''A7'' \<in> set speakers) \<and>
   (\<exists>d. parse_video_filename ''A7_EN_S_S4.avi'' = ([], Inr d) \<and> speaker d = ''A7'' \<and> gender d = ''F'') \<and>
   base_of ''Z99_EN_S_S4.avi'' = Inr ''Z99_EN_S_S4'' \<and> length (str_split ''Z99_EN_S_S4'' CHR ''_'') = 4 \<and>
   \<not> (\<exists>(g, speakers) \<in> set Gender. ''Z99'' \<in> set speakers) \<and>
   (\<exists>d. parse_video_filename ''Z99_EN_S_S4.avi'' = ([], Inr d) \<and> speaker d = ''Z99'' \<and>
      gender d = ''Unknown'')"
proof -
  have b1: "base_of ''A7_EN_S_S4.avi'' = Inr ''A7_EN_S_S4''"
    and b2: "base_of ''Z99_EN_S_S4.avi'' = Inr ''Z99_EN_S_S4''"
    by (simp_all add: base_of_def str_rsplit1_def)
  have l1: "length (str_split ''A7_EN_S_S4'' CHR ''_'') = 4"
    and l2: "length (str_split ''Z99_EN_S_S4'' CHR ''_'') = 4"
    by simp_all
  have s1: "str_strip (hd (str_split ''A7_EN_S_S4'' CHR ''_'')) = ''A7''"
    and s2: "str_strip (hd (str_split ''Z99_EN_S_S4'' CHR ''_'')) = ''Z99''"
    by (simp_all add: str_strip_def isspace_def)
  have m1: "\<exists>speakers. (''F'', speakers) \<in> set Gender \<and> ''A7'' \<in> set speakers"
    by (simp add: Gender_def)
  have m2: "\<forall>(g, speakers) \<in> set Gender. ''Z99'' \<notin> set speakers"
    by (simp add: Gender_def)
  obtain d1 where d1: "parse_video_filename ''A7_EN_S_S4.avi'' = ([], Inr d1)"
    and p1: "speaker d1 = ''A7''"
    and a1: "\<forall>g speakers. (g, speakers) \<in> set Gender \<and> speaker d1 \<in> set speakers \<longrightarrow> gender d1 = g"
    using parse_video_filename_gender [OF b1 l1] unfolding s1 by blast
  obtain d2 where d2: "parse_video_filename ''Z99_EN_S_S4.avi'' = ([], Inr d2)"
    and p2: "speaker d2 = ''Z99''"
    and a2: "(\<forall>(g, speakers) \<in> set Gender. speaker d2 \<notin> set speakers) \<longrightarrow> gender d2 = ''Unknown''"
    using parse_video_filename_gender [OF b2 l2] unfolding s2 by blast
  from a1 p1 m1 have "gender d1 = ''F''" by auto
  with d1 p1
  have r1: "\<exists>d. parse_video_filename ''A7_EN_S_S4.avi'' = ([], Inr d) \<and> speaker d = ''A7'' \<and>
      gender d = ''F''"
    by blast
  from a2 p2 m2 have "gender d2 = ''Unknown''" by simp
  with d2 p2
  have r2: "\<exists>d. parse_video_filename ''Z99_EN_S_S4.avi'' = ([], Inr d) \<and> speaker d = ''Z99'' \<and>
      gender d = ''Unknown''"
    by blast
  from b1 b2 l1 l2 m1 m2 r1 r2 show ?thesis by auto
qed

text \<open>
  Claim C6. For a file name whose base has four fields, the four codes are the
  trimmed fields, and each display value is resolved on its own: a code that is
  absent from its table is its own display value, and a code that is a key has
  the value the table maps it to, whatever the other codes are.
\<close>

theorem parse_video_filename_passthrough:
  assumes "base_of filename = Inr base" and "length (str_split base CHR ''_'') = 4"
  shows "\<exists>d. parse_video_filename filename = ([], Inr d) \<and>
           [speaker d, language d, emotion d, detail d] = map str_strip (str_split base CHR ''_'') \<and>
           (SPEAKER_NAME_DICT (speaker d) = None \<longrightarrow> speaker_name d = speaker d) \<and>
           (\<forall>v. SPEAKER_NAME_DICT (speaker d) = Some v \<longrightarrow> speaker_name d = v) \<and>
           (LANGUAGE_DICT (language d) = None \<longrightarrow> language_full d = language d) \<and>
           (\<forall>v. LANGUAGE_DICT (language d) = Some v \<longrightarrow> language_full d = v) \<and>
           (EMOTION_DICT (emotion d) = None \<longrightarrow> emotion_full d = emotion d) \<and>
           (\<forall>v. EMOTION_DICT (emotion d) = Some v \<longrightarrow> emotion_full d = v) \<and>
           (SENTENCE_DICT (detail d) = None \<longrightarrow> sentence d = detail d) \<and>
           (\<forall>v. SENTENCE_DICT (detail d) = Some v \<longrightarrow> sentence d = v)"
proof -
  obtain d where d: "parse_video_filename filename = ([], Inr d)"
    and f: "[speaker d, language d, emotion d, detail d] = map str_strip (str_split base CHR ''_'')"
    and n: "speaker_name d = dict_get SPEAKER_NAME_DICT (speaker d) (speaker d)"
      "language_full d = dict_get LANGUAGE_DICT (language d) (language d)"
      "emotion_full d = dict_get EMOTION_DICT (emotion d) (emotion d)"
      "sentence d = dict_get SENTENCE_DICT (detail d) (detail d)"
    using assms by (rule parse_four_fields)
  from n have "(SPEAKER_NAME_DICT (speaker d) = None \<longrightarrow> speaker_name d = speaker d) \<and>
           (\<forall>v. SPEAKER_NAME_DICT (speaker d) = Some v \<longrightarrow> speaker_name d = v) \<and>
           (LANGUAGE_DICT (language d) = None \<longrightarrow> language_full d = language d) \<and>
           (\<forall>v. LANGUAGE_DICT (language d) = Some v \<longrightarrow> language_full d = v) \<and>
           (EMOTION_DICT (emotion d) = None \<longrightarrow> emotion_full d = emotion d) \<and>
           (\<forall>v. EMOTION_DICT (emotion d) = Some v \<longrightarrow> emotion_full d = v) \<and>
           (SENTENCE_DICT (detail d) = None \<longrightarrow> sentence d = detail d) \<and>
           (\<forall>v. SENTENCE_DICT (detail d) = Some v \<longrightarrow> sentence d = v)"
    by (simp add: dict_get_def)
  with d f show ?thesis by (intro exI [of _ d] conjI) simp_all
qed

text \<open>The unknown speaker \<open>Z99\<close> of the specification: the other three fields resolve.\<close>

theorem parse_video_filename_passthrough_witness:
  "base_of ''Z99_EN_H_S1.mp4'' = Inr ''Z99_EN_H_S1'' \<and> length (str_split ''Z99_EN_H_S1'' CHR ''_'') = 4 \<and>
   SPEAKER_NAME_DICT ''Z99'' = None \<and> LANGUAGE_DICT ''EN'' = Some ''English'' \<and>
   EMOTION_DICT ''H'' = Some ''Happy'' \<and> SENTENCE_DICT ''S1'' = Some ''Can't you hear my voice?'' \<and>
   (\<exists>d. parse_video_filename ''Z99_EN_H_S1.mp4'' = ([], Inr d) \<and>
      [speaker d, language d, emotion d, detail d] = [''Z99'', ''EN'', ''H'', ''S1''] \<and>
      speaker_name d = ''Z99'' \<and> language_full d = ''English'' \<and> emotion_full d = ''Happy'' \<and>
      sentence d = ''Can't you hear my voice?'')"
proof -
  have b: "base_of ''Z99_EN_H_S1.mp4'' = Inr ''Z99_EN_H_S1''"
    by (simp add: base_of_def str_rsplit1_def)
  have l: "length (str_split ''Z99_EN_H_S1'' CHR ''_'') = 4"
    by simp
  have s: "map str_strip (str_split ''Z99_EN_H_S1'' CHR ''_'') = [''Z99'', ''EN'', ''H'', ''S1'']"
    by (simp add: str_strip_def isspace_def)
  have t: "SPEAKER_NAME_DICT ''Z99'' = None" "LANGUAGE_DICT ''EN'' = Some ''English''"
    "EMOTION_DICT ''H'' = Some ''Happy''" "SENTENCE_DICT ''S1'' = Some ''Can't you hear my voice?''"
    by (simp_all add: SPEAKER_NAME_DICT_def LANGUAGE_DICT_def EMOTION_DICT_def SENTENCE_DICT_def)
  from parse_video_filename_passthrough [OF b l] obtain d
    where d: "parse_video_filename ''Z99_EN_H_S1.mp4'' = ([], Inr d)"
      and f: "[speaker d, language d, emotion d, detail d] = [''Z99'', ''EN'', ''H'', ''S1'']"
      and n1: "SPEAKER_NAME_DICT (speaker d) = None \<longrightarrow> speaker_name d = speaker d"
      and n2: "\<forall>v. LANGUAGE_DICT (language d) = Some v \<longrightarrow> language_full d = v"
      and n3: "\<forall>v. EMOTION_DICT (emotion d) = Some v \<longrightarrow> emotion_full d = v"
      and n4: "\<forall>v. SENTENCE_DICT (detail d) = Some v \<longrightarrow> sentence d = v"
    unfolding s by (elim exE conjE)
  from f have c: "speaker d = ''Z99''" "language d = ''EN''" "emotion d = ''H''" "detail d = ''S1''"
    by simp_all
  from n1 n2 n3 n4 t have "speaker_name d = ''Z99'' \<and> language_full d = ''English'' \<and>
      emotion_full d = ''Happy'' \<and> sentence d = ''Can't you hear my voice?''"
    unfolding c by simp
  with d f have "\<exists>d. parse_video_filename ''Z99_EN_H_S1.mp4'' = ([], Inr d) \<and>
      [speaker d, language d, emotion d, detail d] = [''Z99'', ''EN'', ''H'', ''S1''] \<and>
      speaker_name d = ''Z99'' \<and> language_full d = ''English'' \<and> emotion_full d = ''Happy'' \<and>
      sentence d = ''Can't you hear my voice?''"
    by (intro exI [of _ d]) simp
  with b l t show ?thesis by (intro conjI)
qed

text \<open>
  Claim C10. The gender \<open>parse_video_filename\<close> gives to a name with four fields
  agrees with \<open>get_gender\<close> on the decoded speaker code: when a group lists the
  code, \<open>get_gender\<close> returns the decoded gender; whatever \<open>get_gender\<close> returns is
  the decoded gender; and the decoded gender is \<open>Unknown\<close> exactly when
  \<open>get_gender\<close> raises.
\<close>

theorem lenient_strict_gender_agree:
  assumes "base_of filename = Inr base" and "length (str_split base CHR ''_'') = 4"
  shows "\<exists>d. parse_video_filename filename = ([], Inr d) \<and>
           speaker d = str_strip (hd (str_split base CHR ''_'')) \<and>
           (\<forall>g speakers. (g, speakers) \<in> set Gender \<and> speaker d \<in> set speakers \<longrightarrow>
              get_gender (speaker d) = Inr (gender d)) \<and>
           (\<forall>g. get_gender (speaker d) = Inr g \<longrightarrow> gender d = g) \<and>
           (gender d = ''Unknown'') = (\<exists>e. get_gender (speaker d) = Inl e)"
proof -
  obtain d where d: "parse_video_filename filename = ([], Inr d)"
    and f: "[speaker d, language d, emotion d, detail d] = map str_strip (str_split base CHR ''_'')"
    and g: "gender d = gender_scan Gender (speaker d) ''Unknown''"
    using assms by (rule parse_four_fields)
  obtain males females where G: "Gender = [(''M'', males), (''F'', females)]"
    by (rule Gender_cases)
  from f have "speaker d = str_strip (hd (str_split base CHR ''_''))"
    by (cases "str_split base CHR ''_''") auto
  moreover have "get_gender (speaker d) = Inr (gender d)"
    if "(g', speakers) \<in> set Gender" "speaker d \<in> set speakers" for g' speakers
    using that by (auto simp: g G get_gender_def)
  moreover have "gender d = g'" if "get_gender (speaker d) = Inr g'" for g'
    using that by (auto simp: g G get_gender_def split: if_splits)
  moreover have "(gender d = ''Unknown'') = (\<exists>e. get_gender (speaker d) = Inl e)"
    by (auto simp: g G get_gender_def)
  ultimately show ?thesis using d by blast
qed

text \<open>Both resolutions at \<open>A7\<close>, and at \<open>Z99\<close> where the strict one raises.\<close>

theorem lenient_strict_gender_agree_witness:
  "base_of ''A7_EN_S_S4.avi'' = Inr ''A7_EN_S_S4'' \<and> length (str_split ''A7_EN_S_S4'' CHR ''_'') = 4 \<and>
   (\<exists>d. parse_video_filename ''A7_EN_S_S4.avi'' = ([], Inr d) \<and> speaker d = ''A7'' \<and>
      get_gender ''A7'' = Inr ''F'' \<and> gender d = ''F'') \<and>
   base_of ''Z99_EN_S_S4.avi'' = Inr ''Z99_EN_S_S4'' \<and> length (str_split ''Z99_EN_S_S4'' CHR ''_'') = 4 \<and>
   (\<exists>d. parse_video_filename ''Z99_EN_S_S4.avi'' = ([], Inr d) \<and> speaker d = ''Z99'' \<and>
      get_gender ''Z99'' = Inl (ValueError ''Unknown gender for speaker: Z99'') \<and>
      gender d = ''Unknown'')"
proof -
  have b1: "base_of ''A7_EN_S_S4.avi'' = Inr ''A7_EN_S_S4''"
    and b2: "base_of ''Z99_EN_S_S4.avi'' = Inr ''Z99_EN_S_S4''"
    by (simp_all add: base_of_def str_rsplit1_def)
  have l1: "length (str_split ''A7_EN_S_S4'' CHR ''_'') = 4"
    and l2: "length (str_split ''Z99_EN_S_S4'' CHR ''_'') = 4"
    by simp_all
  have g1: "get_gender ''A7'' = Inr ''F''"
    and g2: "get_gender ''Z99'' = Inl (ValueError ''Unknown gender for speaker: Z99'')"
    by (simp_all add: get_gender_def Gender_def)
  have h1: "str_strip (hd (str_split ''A7_EN_S_S4'' CHR ''_'')) = ''A7''"
    and h2: "str_strip (hd (str_split ''Z99_EN_S_S4'' CHR ''_'')) = ''Z99''"
    by (simp_all add: str_strip_def isspace_def)
  obtain d1 where d1: "parse_video_filename ''A7_EN_S_S4.avi'' = ([], Inr d1)"
    and s1: "speaker d1 = ''A7''"
    and a1: "\<forall>g. get_gender (speaker d1) = Inr g \<longrightarrow> gender d1 = g"
    using lenient_strict_gender_agree [OF b1 l1] unfolding h1 by blast
  obtain d2 where d2: "parse_video_filename ''Z99_EN_S_S4.avi'' = ([], Inr d2)"
    and s2: "speaker d2 = ''Z99''"
    and a2: "(gender d2 = ''Unknown'') = (\<exists>e. get_gender (speaker d2) = Inl e)"
    using lenient_strict_gender_agree [OF b2 l2] unfolding h2 by blast
  from a1 s1 g1 have "gender d1 = ''F''" by simp
  moreover from a2 s2 g2 have "gender d2 = ''Unknown''" by simp
  ultimately show ?thesis using b1 b2 l1 l2 d1 d2 s1 s2 g1 g2 by blast
qed

section \<open>The walk of \<open>convert_structure\<close>\<close>

text \<open>The source's test on the lower-cased name is the test of the claim's words.\<close>

lemma lower_char_eq_iff:
  "t \<in> set ''.mp4avio'' \<Longrightarrow> (lower_char a = t) = same_letter a t"
proof -
  assume t: "t \<in> set ''.mp4avio''"
  have lt: "(of_char a :: nat) < 256" by simp
  have eq: "(a = c) = ((of_char a :: nat) = of_char c)" for c by simp
  from t lt show ?thesis
    unfolding lower_char_def same_letter_def ascii_letter_def Let_def
    by (auto simp: char_of_eq_iff take_bit_eq_mod eq simp del: of_char_eq_iff)
qed

lemma map_lower_char_eq_iff:
  "set ext \<subseteq> set ''.mp4avio'' \<Longrightarrow> (map lower_char s = ext) = list_all2 same_letter s ext"
proof (induction s arbitrary: ext)
  case Nil
  then show ?case by auto
next
  case (Cons a s)
  show ?case
  proof (cases ext)
    case Nil
    then show ?thesis by simp
  next
    case (Cons t ext')
    with Cons.prems have t: "t \<in> set ''.mp4avio''" and e: "set ext' \<subseteq> set ''.mp4avio''"
      by auto
    show ?thesis
      unfolding Cons using lower_char_eq_iff [OF t, of a] Cons.IH [OF e] by simp
  qed
qed

lemma str_endswith_lower_iff:
  "set ext \<subseteq> set ''.mp4avio'' \<Longrightarrow>
     str_endswith (str_lower file) ext = ends_with_ignoring_case file ext"
  by (simp add: str_endswith_def str_lower_def ends_with_ignoring_case_def drop_map
      map_lower_char_eq_iff)

lemma is_video_iff:
  "is_video file = list_ex (ends_with_ignoring_case file) [''.mp4'', ''.avi'', ''.mov'']"
proof -
  have "set ''.mp4'' \<subseteq> set ''.mp4avio''" "set ''.avi'' \<subseteq> set ''.mp4avio''"
    "set ''.mov'' \<subseteq> set ''.mp4avio''"
    by simp_all
  then show ?thesis
    unfolding is_video_def str_endswith_any_def
    by (simp only: list_ex_Cons_iff list_ex_Nil_iff str_endswith_lower_iff)
qed

lemma files_loop_skip:
  "\<not> is_video file \<Longrightarrow>
     files_loop os dst_dir root (file # files) counts w = files_loop os dst_dir root files counts w"
  by (cases counts) simp

lemma files_loop_counts:
  "files_loop os dst_dir root names (s, e) w = (Inr (s', e'), w') \<Longrightarrow>
     s' + e' = s + e + int (length (filter is_video names))"
proof (induction names arbitrary: s e w)
  case Nil
  then show ?case by simp
next
  case (Cons name names)
  show ?case
  proof (cases "is_video name")
    case False
    with Cons.prems have "files_loop os dst_dir root names (s, e) w = (Inr (s', e'), w')"
      by simp
    from Cons.IH [OF this] False show ?thesis by simp
  next
    case True
    obtain r w1 where t: "try_body os dst_dir root name w = (r, w1)"
      by (cases "try_body os dst_dir root name w")
    show ?thesis
    proof (cases r)
      case None
      with Cons.prems True t
      have "files_loop os dst_dir root names (s + 1, e) w1 = (Inr (s', e'), w')"
        by simp
      from Cons.IH [OF this] True show ?thesis by simp
    next
      case (Some x)
      with Cons.prems True t
      have "files_loop os dst_dir root names (s, e + 1)
              (w1\<lparr>logger := logger w1 @ [LogError name x]\<rparr>) = (Inr (s', e'), w')"
        by (simp split: if_splits)
      from Cons.IH [OF this] True show ?thesis by simp
    qed
  qed
qed

lemma walk_loop_counts:
  "walk_loop os dst_dir dirs (s, e) w = (Inr (s', e'), w') \<Longrightarrow>
     s' + e' = s + e + int (length (filter is_video (concat (map snd dirs))))"
proof (induction dirs arbitrary: s e w)
  case Nil
  then show ?case by simp
next
  case (Cons dir dirs)
  obtain root names where dir: "dir = (root, names)"
    by (cases dir)
  obtain r w1 where f: "files_loop os dst_dir root names (s, e) w = (r, w1)"
    by (cases "files_loop os dst_dir root names (s, e) w")
  show ?case
  proof (cases r)
    case (Inl x)
    with Cons.prems dir f show ?thesis by simp
  next
    case (Inr counts)
    obtain s1 e1 where c: "counts = (s1, e1)"
      by (cases counts)
    from Cons.prems dir f Inr c
    have "walk_loop os dst_dir dirs (s1, e1) w1 = (Inr (s', e'), w')"
      by simp
    from Cons.IH [OF this] files_loop_counts [OF f [unfolded Inr c]] dir
    show ?thesis by simp
  qed
qed

text \<open>
  Claim C8. \<open>convert_structure\<close> processes exactly the files whose name ends,
  case-insensitively, with \<open>.mp4\<close>, \<open>.avi\<close> or \<open>.mov\<close>: the source's test is that
  property; a file that fails it is skipped, leaving the counters, the file system
  and the log as they were;
  a file that passes it goes through the body of the loop and is counted as a
  success, or as an error, or its exception leaves the loop; and when the walk
  returns, the two counters add up to the number of files of the walk that pass the
  test.
\<close>

theorem convert_structure_filter:
  "is_video file = list_ex (ends_with_ignoring_case file) [''.mp4'', ''.avi'', ''.mov''] \<and>
   (\<not> is_video file \<longrightarrow>
      files_loop os dst_dir root (file # files) counts w =
      files_loop os dst_dir root files counts w) \<and>
   (is_video file \<longrightarrow>
      files_loop os dst_dir root (file # files) (successes, errors) w =
        (case try_body os dst_dir root file w of
           (None, w1) \<Rightarrow> files_loop os dst_dir root files (successes + 1, errors) w1
         | (Some e, w1) \<Rightarrow>
             if except_ValueError_KeyError e
             then files_loop os dst_dir root files (successes, errors + 1)
                    (w1\<lparr>logger := logger w1 @ [LogError file e]\<rparr>)
             else (Inl e, w1))) \<and>
   (convert_structure os src_dir dst_dir w = (Inr (success_count, error_count), w') \<longrightarrow>
      success_count + error_count =
        int (length (filter is_video (concat (map snd (os_walk os (fs w) src_dir))))))"
proof (intro conjI impI)
  show "is_video file = list_ex (ends_with_ignoring_case file) [''.mp4'', ''.avi'', ''.mov'']"
    by (rule is_video_iff)
  show "files_loop os dst_dir root (file # files) counts w =
      files_loop os dst_dir root files counts w" if "\<not> is_video file"
    using that by (rule files_loop_skip)
  show "files_loop os dst_dir root (file # files) (successes, errors) w =
        (case try_body os dst_dir root file w of
           (None, w1) \<Rightarrow> files_loop os dst_dir root files (successes + 1, errors) w1
         | (Some e, w1) \<Rightarrow>
             if except_ValueError_KeyError e
             then files_loop os dst_dir root files (successes, errors + 1)
                    (w1\<lparr>logger := logger w1 @ [LogError file e]\<rparr>)
             else (Inl e, w1))" if "is_video file"
    using that by simp
  show "success_count + error_count =
        int (length (filter is_video (concat (map snd (os_walk os (fs w) src_dir)))))"
    if "convert_structure os src_dir dst_dir w = (Inr (success_count, error_count), w')"
    using walk_loop_counts [OF that [unfolded convert_structure_def]] by simp
qed

text \<open>
  The tree of the specification: \<open>videos/A1_EN_H_S1.mp4\<close> is copied and counted,
  \<open>videos/notes.txt\<close> is neither.
\<close>

theorem convert_structure_filter_witness:
  "\<not> is_video ''notes.txt'' \<and>
   is_video ''clip.MoV'' \<and> list_ex (ends_with_ignoring_case ''clip.MoV'') [''.mp4'', ''.avi'', ''.mov''] \<and>
   files_loop (stub_os [] None None) ''dst'' ''src/videos'' [''notes.txt'', ''A1_EN_H_S1.mp4'']
       (0, 0) \<lparr>fs = [], logger = []\<rparr> =
     files_loop (stub_os [] None None) ''dst'' ''src/videos'' [''A1_EN_H_S1.mp4'']
       (0, 0) \<lparr>fs = [], logger = []\<rparr> \<and>
   convert_structure (stub_os [(''src/videos'', [''A1_EN_H_S1.mp4'', ''notes.txt''])] None None)
       ''src'' ''dst'' \<lparr>fs = [], logger = []\<rparr> =
     (Inr (1, 0),
      \<lparr>fs = [Makedirs ''dst/EN/M/H/S1'',
             Copy2 ''src/videos/A1_EN_H_S1.mp4'' ''dst/EN/M/H/S1/A1_EN_H_S1.mp4''],
       logger = [LogInfo ''src/videos/A1_EN_H_S1.mp4'' ''dst/EN/M/H/S1/A1_EN_H_S1.mp4'']\<rparr>) \<and>
   (1::int) + 0 =
     int (length (filter is_video (concat (map snd [(''src/videos'', [''A1_EN_H_S1.mp4'', ''notes.txt''])]))))"
proof -
  let ?tree = "[(''src/videos'', [''A1_EN_H_S1.mp4'', ''notes.txt''])]"
  let ?w = "\<lparr>fs = [] :: fs_call list, logger = []\<rparr>"
  let ?w' = "\<lparr>fs = [Makedirs ''dst/EN/M/H/S1'',
             Copy2 ''src/videos/A1_EN_H_S1.mp4'' ''dst/EN/M/H/S1/A1_EN_H_S1.mp4''],
       logger = [LogInfo ''src/videos/A1_EN_H_S1.mp4'' ''dst/EN/M/H/S1/A1_EN_H_S1.mp4'']\<rparr>"
  have n: "\<not> is_video ''notes.txt''" and v: "is_video ''clip.MoV''"
    by code_simp+
  have c: "convert_structure (stub_os ?tree None None) ''src'' ''dst'' ?w = (Inr (1, 0), ?w')"
    by code_simp
  have t: "os_walk (stub_os ?tree None None) (fs ?w) ''src'' = ?tree"
    by (simp add: stub_os_def)
  have 1: "files_loop (stub_os [] None None) ''dst'' ''src/videos''
        [''notes.txt'', ''A1_EN_H_S1.mp4''] (0, 0) ?w =
      files_loop (stub_os [] None None) ''dst'' ''src/videos'' [''A1_EN_H_S1.mp4''] (0, 0) ?w"
    by (rule mp [OF convert_structure_filter [THEN conjunct2, THEN conjunct1] n])
  have 2: "list_ex (ends_with_ignoring_case ''clip.MoV'') [''.mp4'', ''.avi'', ''.mov'']"
    using convert_structure_filter [THEN conjunct1, of "''clip.MoV''"] v by simp
  have 3: "(1::int) + 0 = int (length (filter is_video (concat (map snd ?tree))))"
    using mp [OF convert_structure_filter [THEN conjunct2, THEN conjunct2, THEN conjunct2] c]
    unfolding t .
  from n v 1 2 3 c show ?thesis by (intro conjI)
qed

section \<open>The body of the loop\<close>

text \<open>
  Decoding returns on every name, so an exception that leaves the \<^verbatim>\<open>try\<close> body was
  raised by \<^verbatim>\<open>os.makedirs\<close> or by \<^verbatim>\<open>shutil.copy2\<close>.
\<close>

lemma parse_total:
  obtains records d where "parse_video_filename name = (records, Inr d)"
    and "gender d \<in> {''M'', ''F'', ''Unknown''}"
proof -
  obtain base where b: "base_of name = Inr base"
    using base_of_total by blast
  obtain males females where G: "Gender = [(''M'', males), (''F'', females)]"
    by (rule Gender_cases)
  show thesis
  proof (cases "length (str_split base CHR ''_'') = 4")
    case True
    with b obtain d where "parse_video_filename name = ([], Inr d)"
      and "gender d = gender_scan Gender (speaker d) ''Unknown''"
      by (rule parse_four_fields)
    then show thesis
      by (intro that [of "[]" d]) (simp_all add: G)
  next
    case False
    from parse_other_parts [OF b this] show thesis
      by (intro that [of "[LogWarning name]" unknown_details]) (simp_all add: unknown_details_def)
  qed
qed

lemma path_join_append: "path_join (path_join a p) q = path_join a (p @ q)"
  by (simp add: path_join_def)

lemma join_step_not_Nil: "b \<noteq> [] \<Longrightarrow> join_step path b \<noteq> []"
  by (simp add: join_step_def)

lemma join_step_keeps_not_Nil: "path \<noteq> [] \<Longrightarrow> join_step path b \<noteq> []"
  by (simp add: join_step_def)

lemma join_step_file:
  assumes "path \<noteq> []" and "CHR ''/'' \<notin> set name"
  shows "\<exists>dir. join_step path name = dir @ ''/'' @ name"
proof (cases "last path = CHR ''/''")
  case True
  with assms(1) have "path = butlast path @ ''/''"
    by (metis append_butlast_last_id)
  then have "path @ name = butlast path @ ''/'' @ name"
    by (metis append.assoc)
  moreover from assms(2) have "\<not> (name \<noteq> [] \<and> hd name = CHR ''/'')"
    by (cases name) auto
  ultimately show ?thesis
    using True assms(1) unfolding join_step_def by auto
next
  case False
  moreover from assms(2) have "\<not> (name \<noteq> [] \<and> hd name = CHR ''/'')"
    by (cases name) auto
  ultimately show ?thesis
    using assms(1) unfolding join_step_def by auto
qed

lemma target_dir_of_not_Nil:
  "gender d \<in> {''M'', ''F'', ''Unknown''} \<Longrightarrow> target_dir_of dst_dir d \<noteq> []"
proof -
  assume "gender d \<in> {''M'', ''F'', ''Unknown''}"
  then have "gender d \<noteq> []" by auto
  then show ?thesis
    unfolding target_dir_of_def path_join_def
    by (simp add: join_step_not_Nil join_step_keeps_not_Nil)
qed

lemma try_body_copied:
  assumes "parse_video_filename name = (records, Inr d)"
    and "try_body os dst_dir root name w = (None, w')"
  shows "\<exists>fs2. os_makedirs os (fs w) (target_dir_of dst_dir d) = (None, fs2) \<and>
           shutil_copy2 os fs2 (path_join root [name]) (target_file_of dst_dir d name) = (None, fs w') \<and>
           logger w' = logger w @ records @
             [LogInfo (path_join root [name]) (target_file_of dst_dir d name)]"
proof -
  obtain r2 fs2 where m: "os_makedirs os (fs w) (target_dir_of dst_dir d) = (r2, fs2)"
    by (cases "os_makedirs os (fs w) (target_dir_of dst_dir d)")
  obtain r3 fs3 where c:
    "shutil_copy2 os fs2 (path_join root [name]) (target_file_of dst_dir d name) = (r3, fs3)"
    by (cases "shutil_copy2 os fs2 (path_join root [name]) (target_file_of dst_dir d name)")
  from assms m c show ?thesis
    by (cases r2; cases r3) (auto simp: try_body_def Let_def)
qed

lemma try_body_raised:
  assumes "parse_video_filename name = (records, Inr d)"
    and "try_body os dst_dir root name w = (Some e, w')"
  shows "(\<exists>fs2. os_makedirs os (fs w) (target_dir_of dst_dir d) = (Some e, fs2)) \<or>
         (\<exists>fs2 fs3. os_makedirs os (fs w) (target_dir_of dst_dir d) = (None, fs2) \<and>
            shutil_copy2 os fs2 (path_join root [name]) (target_file_of dst_dir d name) =
              (Some e, fs3))"
proof -
  obtain r2 fs2 where m: "os_makedirs os (fs w) (target_dir_of dst_dir d) = (r2, fs2)"
    by (cases "os_makedirs os (fs w) (target_dir_of dst_dir d)")
  obtain r3 fs3 where c:
    "shutil_copy2 os fs2 (path_join root [name]) (target_file_of dst_dir d name) = (r3, fs3)"
    by (cases "shutil_copy2 os fs2 (path_join root [name]) (target_file_of dst_dir d name)")
  from assms m c show ?thesis
    by (cases r2; cases r3) (auto simp: try_body_def Let_def)
qed

text \<open>
  Claim C7. For every file the loop processes, the path the file is copied to is
  the path-join of the destination root, the language code, the gender, the
  emotion code, the detail code and the file's own name, in that order: the raw
  codes of the decoded name, not the display values. A name without a separator
  is the last component of that path, unchanged. When the body of the loop
  completes, \<^verbatim>\<open>os.makedirs\<close> was called on the join of the first five and
  \<^verbatim>\<open>shutil.copy2\<close> copied the source file to that path, which the log names.
  The join is the one of \<open>posixpath\<close>.
\<close>

theorem convert_structure_target_path:
  "\<exists>records d.
     parse_video_filename name = (records, Inr d) \<and>
     target_file_of dst_dir d name =
       path_join dst_dir [language d, gender d, emotion d, detail d, name] \<and>
     (CHR ''/'' \<notin> set name \<longrightarrow> (\<exists>dir. target_file_of dst_dir d name = dir @ ''/'' @ name)) \<and>
     (\<forall>w'. try_body os dst_dir root name w = (None, w') \<longrightarrow>
        (\<exists>fs2.
           os_makedirs os (fs w) (path_join dst_dir [language d, gender d, emotion d, detail d]) =
             (None, fs2) \<and>
           shutil_copy2 os fs2 (path_join root [name])
               (path_join dst_dir [language d, gender d, emotion d, detail d, name]) =
             (None, fs w') \<and>
           logger w' = logger w @ records @
             [LogInfo (path_join root [name])
                (path_join dst_dir [language d, gender d, emotion d, detail d, name])]))"
proof -
  obtain records d where p: "parse_video_filename name = (records, Inr d)"
    and g: "gender d \<in> {''M'', ''F'', ''Unknown''}"
    by (rule parse_total)
  have flat: "target_file_of dst_dir d name =
      path_join dst_dir [language d, gender d, emotion d, detail d, name]"
    by (simp add: target_file_of_def target_dir_of_def path_join_append)
  have dir: "target_dir_of dst_dir d =
      path_join dst_dir [language d, gender d, emotion d, detail d]"
    by (simp add: target_dir_of_def)
  have kept: "\<exists>dir. target_file_of dst_dir d name = dir @ ''/'' @ name"
    if "CHR ''/'' \<notin> set name"
    using join_step_file [OF target_dir_of_not_Nil [OF g] that]
    by (simp add: target_file_of_def path_join_def)
  have copied: "\<exists>fs2.
           os_makedirs os (fs w) (path_join dst_dir [language d, gender d, emotion d, detail d]) =
             (None, fs2) \<and>
           shutil_copy2 os fs2 (path_join root [name])
               (path_join dst_dir [language d, gender d, emotion d, detail d, name]) =
             (None, fs w') \<and>
           logger w' = logger w @ records @
             [LogInfo (path_join root [name])
                (path_join dst_dir [language d, gender d, emotion d, detail d, name])]"
    if "try_body os dst_dir root name w = (None, w')" for w'
    using try_body_copied [OF p that] unfolding flat dir .
  from p flat kept copied show ?thesis
    by (intro exI [of _ records] exI [of _ d] conjI impI allI)
qed

text \<open>
  The file of the specification, \<open>A1_EN_H_S1.mp4\<close>, goes to \<open>dst/EN/M/H/S1\<close>, not to
  a directory named after \<open>English\<close> or \<open>Happy\<close>.
\<close>

theorem convert_structure_target_path_witness:
  "CHR ''/'' \<notin> set ''A1_EN_H_S1.mp4'' \<and>
   try_body (stub_os [] None None) ''dst'' ''src/videos'' ''A1_EN_H_S1.mp4''
       \<lparr>fs = [], logger = []\<rparr> =
     (None,
      \<lparr>fs = [Makedirs ''dst/EN/M/H/S1'',
             Copy2 ''src/videos/A1_EN_H_S1.mp4'' ''dst/EN/M/H/S1/A1_EN_H_S1.mp4''],
       logger = [LogInfo ''src/videos/A1_EN_H_S1.mp4'' ''dst/EN/M/H/S1/A1_EN_H_S1.mp4'']\<rparr>) \<and>
   (\<exists>records d.
      parse_video_filename ''A1_EN_H_S1.mp4'' = (records, Inr d) \<and>
      target_file_of ''dst'' d ''A1_EN_H_S1.mp4'' =
        path_join ''dst'' [language d, gender d, emotion d, detail d, ''A1_EN_H_S1.mp4''] \<and>
      target_file_of ''dst'' d ''A1_EN_H_S1.mp4'' = ''dst/EN/M/H/S1/A1_EN_H_S1.mp4'')"
proof -
  let ?os = "stub_os [] None None"
  let ?w = "\<lparr>fs = [] :: fs_call list, logger = []\<rparr>"
  have s: "CHR ''/'' \<notin> set ''A1_EN_H_S1.mp4''"
    by simp
  have t: "try_body ?os ''dst'' ''src/videos'' ''A1_EN_H_S1.mp4'' ?w =
     (None,
      \<lparr>fs = [Makedirs ''dst/EN/M/H/S1'',
             Copy2 ''src/videos/A1_EN_H_S1.mp4'' ''dst/EN/M/H/S1/A1_EN_H_S1.mp4''],
       logger = [LogInfo ''src/videos/A1_EN_H_S1.mp4'' ''dst/EN/M/H/S1/A1_EN_H_S1.mp4'']\<rparr>)"
    by code_simp
  have v: "parse_video_filename ''A1_EN_H_S1.mp4'' =
     ([], Inr
        \<lparr>speaker = ''A1'', speaker_name = ''Speaker One'', gender = ''M'',
         language = ''EN'', language_full = ''English'',
         emotion = ''H'', emotion_full = ''Happy'',
         detail = ''S1'', sentence = ''Can't you hear my voice?''\<rparr>)"
    by code_simp
  obtain records d where p: "parse_video_filename ''A1_EN_H_S1.mp4'' = (records, Inr d)"
    and f: "target_file_of ''dst'' d ''A1_EN_H_S1.mp4'' =
        path_join ''dst'' [language d, gender d, emotion d, detail d, ''A1_EN_H_S1.mp4'']"
    using convert_structure_target_path [of "''A1_EN_H_S1.mp4''" "''dst''" ?os "''src/videos''" ?w]
    by (elim exE conjE)
  from p v have c: "language d = ''EN''" "gender d = ''M''" "emotion d = ''H''" "detail d = ''S1''"
    by auto
  have "path_join ''dst'' [language d, gender d, emotion d, detail d, ''A1_EN_H_S1.mp4''] =
      ''dst/EN/M/H/S1/A1_EN_H_S1.mp4''"
    unfolding c by code_simp
  with p f have "\<exists>records d.
      parse_video_filename ''A1_EN_H_S1.mp4'' = (records, Inr d) \<and>
      target_file_of ''dst'' d ''A1_EN_H_S1.mp4'' =
        path_join ''dst'' [language d, gender d, emotion d, detail d, ''A1_EN_H_S1.mp4''] \<and>
      target_file_of ''dst'' d ''A1_EN_H_S1.mp4'' = ''dst/EN/M/H/S1/A1_EN_H_S1.mp4''"
    by (intro exI [of _ records] exI [of _ d]) simp
  with s t show ?thesis by (intro conjI)
qed

text \<open>
  Claim C1, as amended. A \<open>ValueError\<close> or a \<open>KeyError\<close> raised while one file is
  processed is caught at the boundary of that file: the walk goes on with the files
  and directories that remain, with \<open>error_count\<close> one higher, \<open>success_count\<close>
  unchanged and one error record naming the file and the exception in the log.
  The handler (line 194) names these two classes only.
\<close>

theorem convert_structure_isolates_ValueError_KeyError:
  assumes "is_video name"
    and "try_body os dst_dir root name w = (Some e, w')"
    and "except_ValueError_KeyError e"
  shows "walk_loop os dst_dir ((root, name # names) # dirs) (success_count, error_count) w =
         walk_loop os dst_dir ((root, names) # dirs) (success_count, error_count + 1)
           (w'\<lparr>logger := logger w' @ [LogError name e]\<rparr>)"
  using assms by simp

text \<open>
  A \<open>ValueError\<close> from \<^verbatim>\<open>os.makedirs\<close> on the first file: the second file is still
  processed, and both are counted as errors.
\<close>

theorem convert_structure_isolates_ValueError_KeyError_witness:
  "is_video ''A1_EN_H_S1.mp4'' \<and>
   try_body (stub_os [] (Some (ValueError ''embedded null byte'')) None) ''dst'' ''src''
       ''A1_EN_H_S1.mp4'' \<lparr>fs = [], logger = []\<rparr> =
     (Some (ValueError ''embedded null byte''),
      \<lparr>fs = [Makedirs ''dst/EN/M/H/S1''], logger = []\<rparr>) \<and>
   except_ValueError_KeyError (ValueError ''embedded null byte'') \<and>
   walk_loop (stub_os [] (Some (ValueError ''embedded null byte'')) None) ''dst''
       [(''src'', [''A1_EN_H_S1.mp4'', ''A3_HI_S_S2.avi''])] (0, 0) \<lparr>fs = [], logger = []\<rparr> =
     (Inr (0, 2),
      \<lparr>fs = [Makedirs ''dst/EN/M/H/S1'', Makedirs ''dst/HI/F/S/S2''],
       logger = [LogError ''A1_EN_H_S1.mp4'' (ValueError ''embedded null byte''),
                 LogError ''A3_HI_S_S2.avi'' (ValueError ''embedded null byte'')]\<rparr>)"
proof -
  let ?os = "stub_os [] (Some (ValueError ''embedded null byte'')) None"
  let ?w = "\<lparr>fs = [] :: fs_call list, logger = []\<rparr>"
  let ?w' = "\<lparr>fs = [Makedirs ''dst/EN/M/H/S1''], logger = []\<rparr>"
  have v: "is_video ''A1_EN_H_S1.mp4''"
    by code_simp
  have t: "try_body ?os ''dst'' ''src'' ''A1_EN_H_S1.mp4'' ?w =
      (Some (ValueError ''embedded null byte''), ?w')"
    by code_simp
  have c: "except_ValueError_KeyError (ValueError ''embedded null byte'')"
    by simp
  have r: "walk_loop ?os ''dst'' [(''src'', [''A3_HI_S_S2.avi''])] (0, 0 + 1)
      (?w'\<lparr>logger := logger ?w' @ [LogError ''A1_EN_H_S1.mp4'' (ValueError ''embedded null byte'')]\<rparr>) =
     (Inr (0, 2),
      \<lparr>fs = [Makedirs ''dst/EN/M/H/S1'', Makedirs ''dst/HI/F/S/S2''],
       logger = [LogError ''A1_EN_H_S1.mp4'' (ValueError ''embedded null byte''),
                 LogError ''A3_HI_S_S2.avi'' (ValueError ''embedded null byte'')]\<rparr>)"
    by code_simp
  from convert_structure_isolates_ValueError_KeyError [OF v t c, of "[''A3_HI_S_S2.avi'']" "[]" 0 0] r
  have "walk_loop ?os ''dst'' [(''src'', [''A1_EN_H_S1.mp4'', ''A3_HI_S_S2.avi''])] (0, 0) ?w =
     (Inr (0, 2),
      \<lparr>fs = [Makedirs ''dst/EN/M/H/S1'', Makedirs ''dst/HI/F/S/S2''],
       logger = [LogError ''A1_EN_H_S1.mp4'' (ValueError ''embedded null byte''),
                 LogError ''A3_HI_S_S2.avi'' (ValueError ''embedded null byte'')]\<rparr>)"
    by (rule trans)
  with v t c show ?thesis by (intro conjI)
qed

text \<open>
  The claim as first stated fails: an \<open>OSError\<close> raised by \<^verbatim>\<open>os.makedirs\<close>, or by
  \<^verbatim>\<open>shutil.copy2\<close>, while the first of two files is processed leaves
  \<open>convert_structure\<close>; no counter is returned, nothing is logged, and the second
  file is never reached.
\<close>

theorem convert_structure_OSError_counterexample:
  "convert_structure
       (stub_os [(''src'', [''A1_EN_H_S1.mp4'', ''A2_EN_H_S1.mp4''])]
          (Some (OSError ''Permission denied'')) None)
       ''src'' ''dst'' \<lparr>fs = [], logger = []\<rparr> =
     (Inl (OSError ''Permission denied''),
      \<lparr>fs = [Makedirs ''dst/EN/M/H/S1''], logger = []\<rparr>) \<and>
   convert_structure
       (stub_os [(''src'', [''A1_EN_H_S1.mp4'', ''A2_EN_H_S1.mp4''])]
          None (Some (OSError ''No space left on device'')))
       ''src'' ''dst'' \<lparr>fs = [], logger = []\<rparr> =
     (Inl (OSError ''No space left on device''),
      \<lparr>fs = [Makedirs ''dst/EN/M/H/S1'',
             Copy2 ''src/A1_EN_H_S1.mp4'' ''dst/EN/M/H/S1/A1_EN_H_S1.mp4''],
       logger = []\<rparr>)"
  by code_simp

end
